theory Spec2Isabelle
  imports Main
begin

section \<open>Values, objects and child nodes\<close>

text \<open>
  The selector \<^verbatim>\<open>getCmpByAttr\<close> of \<^verbatim>\<open>src/GetCmpByAttr.tsx\<close> receives a tree of child
  nodes, looks for the first element whose property \<^verbatim>\<open>attr\<close> is the string \<^verbatim>\<open>value\<close>, and
  returns a clone of it with extra properties merged in. Objects live in a heap and are
  named by references, so that object identity, allocation and (the absence of) mutation
  can be stated.
\<close>

type_synonym ref = nat

text \<open>What a property of an element may hold. Objects and functions are references.\<close>

datatype jsval = VUndefined | VNull | VBool bool | VNum int | VStr string | VRef ref

text \<open>\<^verbatim>\<open>a === b\<close>: same type and same value, no coercion; references by identity.\<close>

definition strict_eq :: "jsval \<Rightarrow> jsval \<Rightarrow> bool" where
  "strict_eq a b = (a = b)"

type_synonym props = "string \<rightharpoonup> jsval"

text \<open>\<^verbatim>\<open>o[k]\<close> on an object: a missing key reads as \<^verbatim>\<open>undefined\<close>.\<close>

definition prop_get :: "props \<Rightarrow> string \<Rightarrow> jsval" where
  "prop_get ps k = (case ps k of None \<Rightarrow> VUndefined | Some v \<Rightarrow> v)"

text \<open>
  The objects a child node may refer to: an element (its type and its property mapping),
  or a portal, which is a legal child but no element and has no \<^verbatim>\<open>props\<close> field.
  Element keys and refs are not part of the property mapping and are not modelled.
\<close>

datatype obj = OElement string props | OPortal

text \<open>
  \<^verbatim>\<open>ReactNode\<close>: the primitives, a reference to an object, or an array of nodes. An array
  carries its own identity next to its items.
\<close>

datatype node =
    NUndefined
  | NNull
  | NBool bool
  | NNum int
  | NStr string
  | NObj ref
  | NArr ref "node list"

text \<open>The \<^verbatim>\<open>props\<close> argument: a plain object, with its identity and its own properties.\<close>

datatype record_obj = RecordObj ref props

datatype error = TypeError

datatype log_entry = ConsoleLog string node | ConsoleWarn string

text \<open>
  The identity of the object bound to \<^verbatim>\<open>props\<close>: the caller's object, or the object
  that the default initialiser \<^verbatim>\<open>props = {}\<close> creates anew on each call.
\<close>

datatype objid = Fresh | Known ref

type_synonym deps = "node \<times> string \<times> string \<times> objid \<times> bool"

text \<open>
  What a call can read or change: the heap of objects (a reference is an index, a new
  object goes to the end), the lines written to the console, and the cell of the
  \<^verbatim>\<open>useMemo\<close> hook of this call site, which holds the dependencies and the result of the
  previous invocation and is empty on the first render.
\<close>

record state =
  heap :: "obj list"
  console :: "log_entry list"
  memo :: "(deps \<times> node) option"

definition heap_at :: "state \<Rightarrow> ref \<Rightarrow> obj option" where
  "heap_at s r = (if r < length (heap s) then Some (heap s ! r) else None)"

text \<open>Truthiness of a node, as \<^verbatim>\<open>if (matchedComponent)\<close> tests it.\<close>

fun truthy :: "node \<Rightarrow> bool" where
  "truthy NUndefined = False"
| "truthy NNull = False"
| "truthy (NBool b) = b"
| "truthy (NNum n) = (n \<noteq> 0)"
| "truthy (NStr x) = (x \<noteq> [])"
| "truthy (NObj r) = True"
| "truthy (NArr i xs) = True"

section \<open>The primitives of the host framework\<close>

text \<open>
  Modelled from the spec: \<^verbatim>\<open>React.Children.toArray\<close>, which is not part of the
  repository. Section 4.1 step 1: the children are flattened into an ordered sequence,
  nested arrays in place; \<^verbatim>\<open>null\<close>, \<^verbatim>\<open>undefined\<close> and booleans are dropped; strings,
  numbers and objects stay, in the order they were declared.
\<close>

fun toArray :: "node \<Rightarrow> node list" where
  "toArray NUndefined = []"
| "toArray NNull = []"
| "toArray (NBool b) = []"
| "toArray (NNum n) = [NNum n]"
| "toArray (NStr x) = [NStr x]"
| "toArray (NObj r) = [NObj r]"
| "toArray (NArr i xs) = concat (map toArray xs)"

text \<open>
  Modelled from the spec: \<^verbatim>\<open>isValidElement\<close>, the capability check of section 3 and
  section 9 ("is this node a valid element exposing a property mapping?"). It holds of
  a reference to an element object and of nothing else.
\<close>

definition isValidElement :: "state \<Rightarrow> node \<Rightarrow> bool" where
  "isValidElement s n =
     (case n of
        NObj r \<Rightarrow> (case heap_at s r of Some (OElement t ps) \<Rightarrow> True | _ \<Rightarrow> False)
      | _ \<Rightarrow> False)"

text \<open>
  Modelled from the spec: \<^verbatim>\<open>cloneElement\<close>, the clone-with-overrides operation of
  section 3: a new element equal to the given one except that the overrides are merged
  on top of its properties; the original is left as it is. Only a valid element can be
  cloned.
\<close>

definition cloneElement :: "node \<Rightarrow> props \<Rightarrow> state \<Rightarrow> error + (node \<times> state)" where
  "cloneElement el config s =
     (case el of
        NObj r \<Rightarrow>
          (case heap_at s r of
             Some (OElement t ps) \<Rightarrow>
               Inr (NObj (length (heap s)),
                    s\<lparr>heap := heap s @ [OElement t (ps ++ config)]\<rparr>)
           | _ \<Rightarrow> Inl TypeError)
      | _ \<Rightarrow> Inl TypeError)"

text \<open>\<^verbatim>\<open>Object.is\<close> on two nodes: primitives by value, objects and arrays by identity.\<close>

definition object_is :: "node \<Rightarrow> node \<Rightarrow> bool" where
  "object_is a b =
     (case a of
        NArr i xs \<Rightarrow> (case b of NArr j ys \<Rightarrow> i = j | _ \<Rightarrow> False)
      | _ \<Rightarrow> a = b)"

text \<open>An object created during the call is identical to no object of an earlier call.\<close>

fun same_obj :: "objid \<Rightarrow> objid \<Rightarrow> bool" where
  "same_obj (Known a) (Known b) = (a = b)"
| "same_obj _ _ = False"

fun same_deps :: "deps \<Rightarrow> deps \<Rightarrow> bool" where
  "same_deps (c, a, v, p, d) (c', a', v', p', d') =
     (object_is c c' \<and> a = a' \<and> v = v' \<and> same_obj p p' \<and> d = d')"

text \<open>
  Modelled from the spec: \<^verbatim>\<open>useMemo\<close>, the memoize-by-dependency-list primitive.
  Section 4.1, caching: the result is recomputed only when one of the dependencies
  differs from the previous invocation in the same rendering context; otherwise the
  stored result is returned and the callback does not run.
\<close>

definition useMemo ::
  "(state \<Rightarrow> error + (node \<times> state)) \<Rightarrow> deps \<Rightarrow> state \<Rightarrow> error + (node \<times> state)" where
  "useMemo f d s =
     (case memo s of
        Some (d', v) \<Rightarrow>
          if same_deps d' d then Inr (v, s)
          else (case f s of
                  Inl e \<Rightarrow> Inl e
                | Inr (v', s') \<Rightarrow> Inr (v', s'\<lparr>memo := Some (d, v')\<rparr>))
      | None \<Rightarrow>
          (case f s of
             Inl e \<Rightarrow> Inl e
           | Inr (v', s') \<Rightarrow> Inr (v', s'\<lparr>memo := Some (d, v')\<rparr>)))"

section \<open>The selector\<close>

record GetCmpByAttrProps =
  children :: node
  attr :: "string option"
  "value" :: "string option"
  props :: "record_obj option"
  debug :: "bool option"

text \<open>
  \<^verbatim>\<open>cmp.props[attr]\<close>. Only an element has a \<^verbatim>\<open>props\<close> object; on every other node
  \<^verbatim>\<open>cmp.props\<close> is \<^verbatim>\<open>undefined\<close> (or \<^verbatim>\<open>cmp\<close> itself is nullish) and indexing it throws.
\<close>

definition index_props :: "state \<Rightarrow> node \<Rightarrow> string \<Rightarrow> error + jsval" where
  "index_props s cmp atr =
     (case cmp of
        NObj r \<Rightarrow>
          (case heap_at s r of
             Some (OElement t ps) \<Rightarrow> Inr (prop_get ps atr)
           | _ \<Rightarrow> Inl TypeError)
      | _ \<Rightarrow> Inl TypeError)"

text \<open>
  The callback of \<^verbatim>\<open>find\<close> (lines 28 to 29):
  \<^verbatim>\<open>isValidElement(cmp) && cmp.props[attr] === value\<close>. The right operand is evaluated
  only when the left one is true.
\<close>

definition is_match :: "state \<Rightarrow> string \<Rightarrow> string \<Rightarrow> node \<Rightarrow> error + bool" where
  "is_match s atr val cmp =
     (if isValidElement s cmp
      then (case index_props s cmp atr of
              Inl e \<Rightarrow> Inl e
            | Inr v \<Rightarrow> Inr (strict_eq v (VStr val)))
      else Inr False)"

text \<open>
  \<^verbatim>\<open>Array.prototype.find\<close>: the first item on which the callback is true, \<^verbatim>\<open>undefined\<close>
  when there is none; an exception of the callback ends the search.
\<close>

fun array_find :: "(node \<Rightarrow> error + bool) \<Rightarrow> node list \<Rightarrow> error + node" where
  "array_find p [] = Inr NUndefined"
| "array_find p (x # xs) =
     (case p x of
        Inl e \<Rightarrow> Inl e
      | Inr True \<Rightarrow> Inr x
      | Inr False \<Rightarrow> array_find p xs)"

definition console_log :: "string \<Rightarrow> node \<Rightarrow> state \<Rightarrow> state" where
  "console_log msg n s = s\<lparr>console := console s @ [ConsoleLog msg n]\<rparr>"

definition console_warn :: "string \<Rightarrow> state \<Rightarrow> state" where
  "console_warn msg s = s\<lparr>console := console s @ [ConsoleWarn msg]\<rparr>"

text \<open>The arrow function handed to \<^verbatim>\<open>useMemo\<close> (lines 24 to 49).\<close>

definition select_clone ::
  "node \<Rightarrow> string \<Rightarrow> string \<Rightarrow> props \<Rightarrow> bool \<Rightarrow> state \<Rightarrow> error + (node \<times> state)" where
  "select_clone chn atr val cfg dbg s =
     (let componentsArray = toArray chn in
      case array_find (is_match s atr val) componentsArray of
        Inl e \<Rightarrow> Inl e
      | Inr matchedComponent \<Rightarrow>
          if truthy matchedComponent
          then cloneElement matchedComponent cfg
                 (if dbg
                  then console_log ''Found component with matching props:'' matchedComponent s
                  else s)
          else Inr (NNull,
                    if dbg
                    then console_warn
                           (''No component found with attr '' @ atr @ '' and value '' @ val) s
                    else s))"

text \<open>The defaults of the destructured parameter (lines 17 to 23).\<close>

definition attr_of :: "GetCmpByAttrProps \<Rightarrow> string" where
  "attr_of p = (case attr p of None \<Rightarrow> ''data-slot'' | Some a \<Rightarrow> a)"

definition value_of :: "GetCmpByAttrProps \<Rightarrow> string" where
  "value_of p = (case value p of None \<Rightarrow> [] | Some v \<Rightarrow> v)"

definition props_of :: "GetCmpByAttrProps \<Rightarrow> props" where
  "props_of p = (case props p of None \<Rightarrow> Map.empty | Some (RecordObj i ps) \<Rightarrow> ps)"

definition props_id :: "GetCmpByAttrProps \<Rightarrow> objid" where
  "props_id p = (case props p of None \<Rightarrow> Fresh | Some (RecordObj i ps) \<Rightarrow> Known i)"

definition debug_of :: "GetCmpByAttrProps \<Rightarrow> bool" where
  "debug_of p = (case debug p of None \<Rightarrow> False | Some d \<Rightarrow> d)"

definition deps_of :: "GetCmpByAttrProps \<Rightarrow> deps" where
  "deps_of p = (children p, attr_of p, value_of p, props_id p, debug_of p)"

definition getCmpByAttr :: "GetCmpByAttrProps \<Rightarrow> state \<Rightarrow> error + (node \<times> state)" where
  "getCmpByAttr p s =
     useMemo (select_clone (children p) (attr_of p) (value_of p) (props_of p) (debug_of p))
       (deps_of p) s"

section \<open>Predicates used in the statements\<close>

text \<open>
  What the callback of \<^verbatim>\<open>find\<close> decides, as a predicate: the node refers to an element
  whose property mapping holds the string \<^verbatim>\<open>val\<close> under \<^verbatim>\<open>atr\<close>. Lemma
  \<open>is_match_matches\<close> shows that \<open>is_match\<close> computes exactly this and never throws.
\<close>

definition matches :: "state \<Rightarrow> string \<Rightarrow> string \<Rightarrow> node \<Rightarrow> bool" where
  "matches s atr val n =
     (case n of
        NObj r \<Rightarrow>
          (case heap_at s r of
             Some (OElement t ps) \<Rightarrow> ps atr = Some (VStr val)
           | _ \<Rightarrow> False)
      | _ \<Rightarrow> False)"

text \<open>The memo cell holds a result for the dependencies of this call.\<close>

definition memo_hit :: "GetCmpByAttrProps \<Rightarrow> state \<Rightarrow> bool" where
  "memo_hit p s = (case memo s of None \<Rightarrow> False | Some (d, v) \<Rightarrow> same_deps d (deps_of p))"

text \<open>Strings, numbers, booleans, \<^verbatim>\<open>null\<close> and \<^verbatim>\<open>undefined\<close>.\<close>

fun is_primitive :: "node \<Rightarrow> bool" where
  "is_primitive (NObj r) = False"
| "is_primitive (NArr i xs) = False"
| "is_primitive _ = True"

text \<open>Children made of primitives only, however they are nested in arrays.\<close>

fun only_primitives :: "node \<Rightarrow> bool" where
  "only_primitives (NObj r) = False"
| "only_primitives (NArr i xs) = list_all only_primitives xs"
| "only_primitives _ = True"

text \<open>Every object the children refer to exists in the heap.\<close>

fun refs_ok :: "state \<Rightarrow> node \<Rightarrow> bool" where
  "refs_ok s (NObj r) = (r < length (heap s))"
| "refs_ok s (NArr i xs) = list_all (refs_ok s) xs"
| "refs_ok s _ = True"

text \<open>
  What a returned node stands for: the object it refers to, or the primitive itself.
  Two calls that both compute return different references, to objects with the same
  content.
\<close>

definition node_content :: "state \<Rightarrow> node \<Rightarrow> node + obj option" where
  "node_content s n = (case n of NObj r \<Rightarrow> Inr (heap_at s r) | _ \<Rightarrow> Inl n)"

section \<open>An example\<close>

text \<open>
  Five elements and a portal. Two \<^verbatim>\<open>div\<close>s are marked \<^verbatim>\<open>data-slot="body"\<close>, a
  \<^verbatim>\<open>span\<close> is marked \<^verbatim>\<open>data-slot=""\<close>. The children hold them next to a string, a
  number, a \<^verbatim>\<open>null\<close> and a nested array.
\<close>

definition ex_heap :: "obj list" where
  "ex_heap =
     [OElement ''div'' [''data-slot'' \<mapsto> VStr ''header''],
      OElement ''div'' [''data-slot'' \<mapsto> VStr ''body'', ''id'' \<mapsto> VStr ''first''],
      OElement ''div'' [''data-slot'' \<mapsto> VStr ''body'', ''id'' \<mapsto> VStr ''second''],
      OElement ''div'' [''data-slot'' \<mapsto> VStr ''footer''],
      OPortal,
      OElement ''span'' [''data-slot'' \<mapsto> VStr []]]"

definition ex_state :: state where
  "ex_state = \<lparr>heap = ex_heap, console = [], memo = None\<rparr>"

definition ex_children :: node where
  "ex_children =
     NArr 10 [NObj 4, NObj 0, NStr ''text'', NObj 1, NNull,
              NArr 11 [NObj 2, NObj 3], NObj 5, NNum 7]"

definition ex_args :: GetCmpByAttrProps where
  "ex_args =
     \<lparr>children = ex_children, attr = None, value = Some ''body'',
      props = Some (RecordObj 20 [''className'' \<mapsto> VStr ''x'']), debug = Some True\<rparr>"


text \<open>Variants: a value no child carries, no value at all, extra properties that name
  the slot attribute, and children without any element.\<close>

definition ex_args_missing :: GetCmpByAttrProps where
  "ex_args_missing = ex_args\<lparr>value := Some ''missing''\<rparr>"

definition ex_args_no_value :: GetCmpByAttrProps where
  "ex_args_no_value = ex_args\<lparr>value := None\<rparr>"

definition ex_args_override :: GetCmpByAttrProps where
  "ex_args_override =
     ex_args\<lparr>props := Some (RecordObj 21 [''data-slot'' \<mapsto> VStr ''moved''])\<rparr>"

definition ex_args_text :: GetCmpByAttrProps where
  "ex_args_text =
     ex_args\<lparr>children := NArr 12 [NStr ''body'', NNum 1, NArr 13 [NBool True, NNull]]\<rparr>"

section \<open>The search\<close>

lemma is_match_matches: "is_match s atr val n = Inr (matches s atr val n)"
  by (auto simp: is_match_def matches_def isValidElement_def index_props_def prop_get_def
      strict_eq_def split: node.splits option.splits obj.splits)

lemma array_find_matches:
  "array_find (is_match s atr val) xs =
     Inr (case List.find (matches s atr val) xs of None \<Rightarrow> NUndefined | Some m \<Rightarrow> m)"
  by (induction xs) (simp_all add: is_match_matches)

lemma matches_elem:
  "matches s atr val n \<Longrightarrow>
     \<exists>r t ps. n = NObj r \<and> heap_at s r = Some (OElement t ps) \<and> ps atr = Some (VStr val)"
  by (auto simp: matches_def split: node.splits option.splits obj.splits)

lemma find_matches_elem:
  assumes "List.find (matches s atr val) xs = Some m"
  shows "\<exists>r t ps. m = NObj r \<and> heap_at s r = Some (OElement t ps) \<and> ps atr = Some (VStr val)"
proof -
  from assms have "matches s atr val m" by (auto simp: find_Some_iff)
  then show ?thesis by (rule matches_elem)
qed

lemma find_first_decomp:
  assumes "xs = pre @ m # post" and "P m" and "\<forall>n\<in>set pre. \<not> P n"
  shows "List.find P xs = Some m"
  using assms by (induction pre arbitrary: xs) auto

text \<open>No coercion: the number \<^verbatim>\<open>1\<close> under \<open>atr\<close> is no match for the string \<^verbatim>\<open>"1"\<close>.\<close>

lemma number_is_not_its_numeral:
  assumes "heap_at s r = Some (OElement t ps)" and "ps atr = Some (VNum 1)"
  shows "is_match s atr ''1'' (NObj r) = Inr False"
  using assms by (simp add: is_match_matches matches_def)

text \<open>A truthy result of \<^verbatim>\<open>find\<close> is a node the callback accepted.\<close>

lemma find_truthy:
  assumes "array_find (is_match s atr val) xs = Inr m" and "truthy m"
  shows "List.find (matches s atr val) xs = Some m"
  using assms by (auto simp: array_find_matches split: option.splits)

lemma is_primitive_no_match: "is_primitive n \<Longrightarrow> \<not> matches s atr val n"
  by (cases n) (simp_all add: matches_def)

lemma only_primitives_toArray:
  "only_primitives n \<Longrightarrow> \<forall>x\<in>set (toArray n). is_primitive x"
  by (induction n rule: toArray.induct) (auto simp: list_all_iff)

lemma refs_ok_toArray: "refs_ok s n \<Longrightarrow> \<forall>x\<in>set (toArray n). refs_ok s x"
  by (induction n rule: toArray.induct) (auto simp: list_all_iff)

text \<open>Allocation does not change what an existing node matches.\<close>

lemma matches_heap_ext:
  assumes "refs_ok s x" and "heap t = heap s @ ys"
  shows "matches t atr val x = matches s atr val x"
  using assms by (cases x) (simp_all add: matches_def heap_at_def nth_append)

lemma find_heap_ext:
  assumes "refs_ok s n" and "heap t = heap s @ ys"
  shows "List.find (matches t atr val) (toArray n) = List.find (matches s atr val) (toArray n)"
proof (rule find_cong)
  show "toArray n = toArray n" by simp
next
  fix x assume "x \<in> set (toArray n)"
  with assms(1) have "refs_ok s x" by (blast dest: refs_ok_toArray)
  then show "matches t atr val x = matches s atr val x"
    using assms(2) by (rule matches_heap_ext)
qed

section \<open>The callback and the memo cell\<close>

lemma heap_console_log [simp]: "heap (console_log msg n s) = heap s"
  by (simp add: console_log_def)

lemma heap_console_warn [simp]: "heap (console_warn msg s) = heap s"
  by (simp add: console_warn_def)

lemma heap_at_console_log [simp]: "heap_at (console_log msg n s) r = heap_at s r"
  by (simp add: heap_at_def)

lemma select_clone_none:
  assumes "List.find (matches s atr val) (toArray chn) = None"
  shows "select_clone chn atr val cfg dbg s =
           Inr (NNull, if dbg then console_warn
                  (''No component found with attr '' @ atr @ '' and value '' @ val) s else s)"
  using assms by (simp add: select_clone_def array_find_matches)

lemma select_clone_found:
  assumes "List.find (matches s atr val) (toArray chn) = Some (NObj r)"
      and "heap_at s r = Some (OElement t ps)"
  shows "select_clone chn atr val cfg dbg s =
           Inr (NObj (length (heap s)),
                (if dbg then console_log ''Found component with matching props:'' (NObj r) s else s)
                  \<lparr>heap := heap s @ [OElement t (ps ++ cfg)]\<rparr>)"
  using assms by (simp add: select_clone_def array_find_matches cloneElement_def)

lemma getCmpByAttr_miss:
  assumes "\<not> memo_hit p s"
  shows "getCmpByAttr p s =
           (case select_clone (children p) (attr_of p) (value_of p) (props_of p) (debug_of p) s of
              Inl e \<Rightarrow> Inl e
            | Inr (v, s') \<Rightarrow> Inr (v, s'\<lparr>memo := Some (deps_of p, v)\<rparr>))"
  using assms by (auto simp: getCmpByAttr_def useMemo_def memo_hit_def split: option.splits)

lemma getCmpByAttr_hit:
  assumes "memo s = Some (d, v)" and "same_deps d (deps_of p)"
  shows "getCmpByAttr p s = Inr (v, s)"
  using assms by (simp add: getCmpByAttr_def useMemo_def)

lemma getCmpByAttr_found:
  assumes "\<not> memo_hit p s"
      and "List.find (matches s (attr_of p) (value_of p)) (toArray (children p)) = Some (NObj r)"
      and "heap_at s r = Some (OElement t ps)"
  shows "getCmpByAttr p s =
           Inr (NObj (length (heap s)),
                \<lparr>heap = heap s @ [OElement t (ps ++ props_of p)],
                 console = console s @
                   (if debug_of p
                    then [ConsoleLog ''Found component with matching props:'' (NObj r)]
                    else []),
                 memo = Some (deps_of p, NObj (length (heap s)))\<rparr>)"
  using assms
  by (simp add: getCmpByAttr_miss select_clone_found console_log_def)

lemma getCmpByAttr_none:
  assumes "\<not> memo_hit p s"
      and "List.find (matches s (attr_of p) (value_of p)) (toArray (children p)) = None"
  shows "getCmpByAttr p s =
           Inr (NNull,
                \<lparr>heap = heap s,
                 console = console s @
                   (if debug_of p
                    then [ConsoleWarn (''No component found with attr '' @ attr_of p @
                                        '' and value '' @ value_of p)]
                    else []),
                 memo = Some (deps_of p, NNull)\<rparr>)"
  using assms
  by (simp add: getCmpByAttr_miss select_clone_none console_warn_def)

lemma heap_at_new [simp]:
  "heap_at \<lparr>heap = h @ [x], console = c, memo = m\<rparr> (length h) = Some x"
  by (simp add: heap_at_def)

lemma of_debug_upd [simp]:
  "attr_of (p\<lparr>debug := d\<rparr>) = attr_of p"
  "value_of (p\<lparr>debug := d\<rparr>) = value_of p"
  "props_of (p\<lparr>debug := d\<rparr>) = props_of p"
  "props_id (p\<lparr>debug := d\<rparr>) = props_id p"
  by (simp_all add: attr_of_def value_of_def props_of_def props_id_def)

lemma object_is_refl [simp]: "object_is n n"
  by (cases n) (simp_all add: object_is_def)

lemma getCmpByAttr_total: "\<exists>res s'. getCmpByAttr p s = Inr (res, s')"
proof (cases "memo_hit p s")
  case True
  then show ?thesis
    by (auto simp: memo_hit_def getCmpByAttr_hit split: option.splits)
next
  case False
  show ?thesis
  proof (cases "List.find (matches s (attr_of p) (value_of p)) (toArray (children p))")
    case None
    with False show ?thesis by (simp add: getCmpByAttr_none)
  next
    case (Some m)
    then obtain r t ps where "m = NObj r" and "heap_at s r = Some (OElement t ps)"
      by (blast dest: find_matches_elem)
    with False Some show ?thesis by (simp add: getCmpByAttr_found)
  qed
qed

lemma memo_after_miss:
  assumes "\<not> memo_hit p s" and "getCmpByAttr p s = Inr (res, s')"
  shows "memo s' = Some (deps_of p, res)"
  using assms by (auto simp: getCmpByAttr_miss split: sum.splits)

text \<open>
  Running the callback again, in any later state with the same heap, gives a node with
  the same content.
\<close>

lemma recompute:
  assumes "\<not> memo_hit p s" and "refs_ok s (children p)"
      and "getCmpByAttr p s = Inr (res, s')"
      and "heap t = heap s'" and "\<not> memo_hit p t"
  shows "\<exists>res2 t'. getCmpByAttr p t = Inr (res2, t') \<and>
           node_content t' res2 = node_content s' res"
proof (cases "List.find (matches s (attr_of p) (value_of p)) (toArray (children p))")
  case None
  from getCmpByAttr_none [OF assms(1) None] assms(3)
  have hs: "heap s' = heap s" and r: "res = NNull"
    by auto
  from assms(4) hs have "heap t = heap s @ []" by simp
  from find_heap_ext [OF assms(2) this] None have
    "List.find (matches t (attr_of p) (value_of p)) (toArray (children p)) = None"
    by simp
  with assms(5) r show ?thesis
    by (simp add: getCmpByAttr_none node_content_def)
next
  case (Some m)
  then obtain r e ps where m: "m = NObj r" and h: "heap_at s r = Some (OElement e ps)"
    by (blast dest: find_matches_elem)
  from Some m have f0:
    "List.find (matches s (attr_of p) (value_of p)) (toArray (children p)) = Some (NObj r)"
    by simp
  from getCmpByAttr_found [OF assms(1) f0 h] assms(3) have
    hs: "heap s' = heap s @ [OElement e (ps ++ props_of p)]" and r: "res = NObj (length (heap s))"
    by auto
  from assms(4) hs have ht: "heap t = heap s @ [OElement e (ps ++ props_of p)]" by simp
  from find_heap_ext [OF assms(2) ht] f0 have f:
    "List.find (matches t (attr_of p) (value_of p)) (toArray (children p)) = Some (NObj r)"
    by simp
  from h ht have h': "heap_at t r = Some (OElement e ps)"
    by (auto simp: heap_at_def nth_append split: if_splits)
  from getCmpByAttr_found [OF assms(5) f h'] r hs ht show ?thesis
    by (simp add: node_content_def heap_at_def nth_append)
qed

section \<open>The example, evaluated\<close>

lemmas ex_defs = ex_heap_def ex_state_def ex_children_def ex_args_def
  ex_args_missing_def ex_args_no_value_def ex_args_override_def ex_args_text_def
  attr_of_def value_of_def props_of_def props_id_def debug_of_def deps_of_def
  memo_hit_def matches_def heap_at_def

lemma ex_toArray:
  "toArray ex_children =
     [NObj 4, NObj 0, NStr ''text'', NObj 1, NObj 2, NObj 3, NObj 5, NNum 7]"
  by (simp add: ex_children_def)



lemma ex_array_find:
  "array_find (is_match ex_state ''data-slot'' ''body'') (toArray ex_children) = Inr (NObj 1)"
proof -
  have "List.find (matches ex_state ''data-slot'' ''body'') (toArray ex_children) =
          Some (NObj 1)"
    by (simp add: ex_defs)
  then show ?thesis by (simp only: array_find_matches option.case)
qed

section \<open>C1: the first match is the one returned\<close>

text \<open>
  C1. Whenever the memoised computation runs (no result is stored for these
  dependencies), and the flattened children are \<open>pre @ m # post\<close> where \<open>m\<close> is a valid
  element whose property \<open>attr\<close> is the string \<open>value\<close> and no node of \<open>pre\<close> is one, the
  function returns a new element that is the clone of \<open>m\<close>: the type of \<open>m\<close> and the
  properties of \<open>m\<close> overridden by the extra properties. What follows \<open>m\<close> in the
  sequence plays no part. The comparison is between a property value and a string, so
  only a string property with the same characters matches.
\<close>

theorem first_match_is_cloned:
  assumes "\<not> memo_hit p s"
      and "toArray (children p) = pre @ m # post"
      and "matches s (attr_of p) (value_of p) m"
      and "\<forall>n\<in>set pre. \<not> matches s (attr_of p) (value_of p) n"
  shows "\<exists>r t ps s'. m = NObj r \<and> heap_at s r = Some (OElement t ps) \<and>
           ps (attr_of p) = Some (VStr (value_of p)) \<and>
           getCmpByAttr p s = Inr (NObj (length (heap s)), s') \<and>
           heap_at s' (length (heap s)) = Some (OElement t (ps ++ props_of p))"
proof -
  from assms(3) obtain r t ps where
    m: "m = NObj r" and h: "heap_at s r = Some (OElement t ps)"
    and a: "ps (attr_of p) = Some (VStr (value_of p))"
    by (blast dest: matches_elem)
  from assms(2-4) have
    "List.find (matches s (attr_of p) (value_of p)) (toArray (children p)) = Some m"
    by (rule find_first_decomp)
  with m have
    "List.find (matches s (attr_of p) (value_of p)) (toArray (children p)) = Some (NObj r)"
    by simp
  from getCmpByAttr_found [OF assms(1) this h] m h a show ?thesis by simp
qed

text \<open>
  In the example the portal, the header and the string come first; the first of the
  two \<^verbatim>\<open>body\<close> elements is cloned, the second one is not looked at.
\<close>

theorem first_match_is_cloned_witness:
  "\<not> memo_hit ex_args ex_state \<and>
   toArray (children ex_args) =
     [NObj 4, NObj 0, NStr ''text''] @ NObj 1 # [NObj 2, NObj 3, NObj 5, NNum 7] \<and>
   matches ex_state (attr_of ex_args) (value_of ex_args) (NObj 1) \<and>
   matches ex_state (attr_of ex_args) (value_of ex_args) (NObj 2) \<and>
   \<not> matches ex_state (attr_of ex_args) (value_of ex_args) (NObj 4) \<and>
   \<not> matches ex_state (attr_of ex_args) (value_of ex_args) (NObj 0) \<and>
   \<not> matches ex_state (attr_of ex_args) (value_of ex_args) (NStr ''text'') \<and>
   (\<exists>r t ps s'. NObj 1 = NObj r \<and> heap_at ex_state r = Some (OElement t ps) \<and>
      ps (attr_of ex_args) = Some (VStr (value_of ex_args)) \<and>
      getCmpByAttr ex_args ex_state = Inr (NObj (length (heap ex_state)), s') \<and>
      heap_at s' (length (heap ex_state)) = Some (OElement t (ps ++ props_of ex_args)))"
proof -
  have h1: "\<not> memo_hit ex_args ex_state"
    by (simp add: ex_defs)
  have h2: "toArray (children ex_args) =
              [NObj 4, NObj 0, NStr ''text''] @ NObj 1 # [NObj 2, NObj 3, NObj 5, NNum 7]"
    by (simp add: ex_defs)
  have h3: "matches ex_state (attr_of ex_args) (value_of ex_args) (NObj 1)"
    by (simp add: ex_defs)
  have h3': "matches ex_state (attr_of ex_args) (value_of ex_args) (NObj 2)"
    by (simp add: ex_defs)
  have h4: "\<forall>n\<in>set [NObj 4, NObj 0, NStr ''text''].
              \<not> matches ex_state (attr_of ex_args) (value_of ex_args) n"
    by (simp add: ex_defs)
  note c = first_match_is_cloned [OF h1 h2 h3 h4]
  from h1 h2 h3 h3' h4 c show ?thesis by simp
qed

section \<open>C2: the clone carries the extra properties\<close>



section \<open>C3: no match gives the empty result\<close>

text \<open>
  C3. Whenever the computation runs and no node of the flattened children is a valid
  element with property \<open>attr\<close> equal to \<open>value\<close>, the function returns \<^verbatim>\<open>null\<close>; it
  does not raise, and the heap is as before.
\<close>

theorem no_match_returns_null:
  assumes "\<not> memo_hit p s"
      and "\<forall>n\<in>set (toArray (children p)). \<not> matches s (attr_of p) (value_of p) n"
  shows "\<exists>s'. getCmpByAttr p s = Inr (NNull, s') \<and> heap s' = heap s"
proof -
  from assms(2) have
    "List.find (matches s (attr_of p) (value_of p)) (toArray (children p)) = None"
    by (simp add: find_None_iff)
  from getCmpByAttr_none [OF assms(1) this] show ?thesis by simp
qed

theorem no_match_returns_null_witness:
  "\<not> memo_hit ex_args_missing ex_state \<and>
   list_all (\<lambda>n. \<not> matches ex_state (attr_of ex_args_missing) (value_of ex_args_missing) n)
     (toArray (children ex_args_missing)) \<and>
   (\<exists>s'. getCmpByAttr ex_args_missing ex_state = Inr (NNull, s') \<and> heap s' = heap ex_state)"
proof -
  have h1: "\<not> memo_hit ex_args_missing ex_state"
    by (simp add: ex_defs)
  have h2: "\<forall>n\<in>set (toArray (children ex_args_missing)).
              \<not> matches ex_state (attr_of ex_args_missing) (value_of ex_args_missing) n"
    by (simp add: ex_defs)
  note c = no_match_returns_null [OF h1 h2]
  from h1 h2 c show ?thesis by (simp add: list_all_iff)
qed

section \<open>C4: what is no element never matches\<close>

text \<open>
  C4. A string, a number, a boolean, \<^verbatim>\<open>null\<close> or \<^verbatim>\<open>undefined\<close> is rejected by the
  callback of \<^verbatim>\<open>find\<close> for every \<open>attr\<close> and \<open>value\<close>; and when the children hold
  nothing but such nodes, the computation returns \<^verbatim>\<open>null\<close>.
\<close>

theorem non_elements_never_match:
  "(is_primitive n \<longrightarrow> is_match s atr val n = Inr False) \<and>
   (only_primitives (children p) \<and> \<not> memo_hit p s \<longrightarrow>
      (\<exists>s'. getCmpByAttr p s = Inr (NNull, s')))"
proof (intro conjI impI)
  assume "is_primitive n"
  then show "is_match s atr val n = Inr False"
    by (simp add: is_match_matches is_primitive_no_match)
next
  assume a: "only_primitives (children p) \<and> \<not> memo_hit p s"
  then have "\<forall>x\<in>set (toArray (children p)). \<not> matches s (attr_of p) (value_of p) x"
    by (blast dest: only_primitives_toArray is_primitive_no_match)
  then have "List.find (matches s (attr_of p) (value_of p)) (toArray (children p)) = None"
    by (simp add: find_None_iff)
  with a show "\<exists>s'. getCmpByAttr p s = Inr (NNull, s')"
    by (simp add: getCmpByAttr_none)
qed

text \<open>The string \<^verbatim>\<open>"body"\<close> as a child is no match for the value \<^verbatim>\<open>"body"\<close>.\<close>

theorem non_elements_never_match_witness:
  "is_primitive (NStr ''body'') \<and>
   is_match ex_state ''data-slot'' ''body'' (NStr ''body'') = Inr False \<and>
   only_primitives (children ex_args_text) \<and>
   \<not> memo_hit ex_args_text ex_state \<and>
   (\<exists>s'. getCmpByAttr ex_args_text ex_state = Inr (NNull, s'))"
proof -
  have h1: "is_primitive (NStr ''body'')" by simp
  have h2: "only_primitives (children ex_args_text) \<and> \<not> memo_hit ex_args_text ex_state"
    by (simp add: ex_defs)
  note c = non_elements_never_match
    [of "NStr ''body''" ex_state "''data-slot''" "''body''" ex_args_text]
  from h1 h2 c show ?thesis by blast
qed

section \<open>C5: the default value is the empty string\<close>

text \<open>
  C5. A call without \<open>value\<close> is the call with \<open>value\<close> the empty string: when the
  computation runs and the flattened children are \<open>pre @ m # post\<close> where \<open>m\<close> is a valid
  element whose property \<open>attr\<close> is the empty string and no node of \<open>pre\<close> is one, the
  clone of \<open>m\<close> is returned.
\<close>

theorem omitted_value_is_empty_string:
  assumes "value p = None"
      and "\<not> memo_hit p s"
      and "toArray (children p) = pre @ m # post"
      and "matches s (attr_of p) [] m"
      and "\<forall>n\<in>set pre. \<not> matches s (attr_of p) [] n"
  shows "getCmpByAttr p s = getCmpByAttr (p\<lparr>value := Some []\<rparr>) s \<and>
         (\<exists>r t ps s'. m = NObj r \<and> heap_at s r = Some (OElement t ps) \<and>
            ps (attr_of p) = Some (VStr []) \<and>
            getCmpByAttr p s = Inr (NObj (length (heap s)), s') \<and>
            heap_at s' (length (heap s)) = Some (OElement t (ps ++ props_of p)))"
proof -
  from assms(1) have v: "value_of p = []" by (simp add: value_of_def)
  have e: "getCmpByAttr p s = getCmpByAttr (p\<lparr>value := Some []\<rparr>) s"
    using assms(1)
    by (simp add: getCmpByAttr_def deps_of_def attr_of_def value_of_def props_of_def
        props_id_def debug_of_def)
  from assms(4) obtain r t ps where
    m: "m = NObj r" and h: "heap_at s r = Some (OElement t ps)"
    and a: "ps (attr_of p) = Some (VStr [])"
    by (blast dest: matches_elem)
  from assms(3-5) have "List.find (matches s (attr_of p) []) (toArray (children p)) = Some m"
    by (rule find_first_decomp)
  with m v have
    "List.find (matches s (attr_of p) (value_of p)) (toArray (children p)) = Some (NObj r)"
    by simp
  from getCmpByAttr_found [OF assms(2) this h] m h a e show ?thesis by simp
qed

text \<open>In the example the \<^verbatim>\<open>span\<close> with \<^verbatim>\<open>data-slot=""\<close> is the one selected.\<close>

theorem omitted_value_is_empty_string_witness:
  "value ex_args_no_value = None \<and>
   \<not> memo_hit ex_args_no_value ex_state \<and>
   toArray (children ex_args_no_value) =
     [NObj 4, NObj 0, NStr ''text'', NObj 1, NObj 2, NObj 3] @ NObj 5 # [NNum 7] \<and>
   matches ex_state (attr_of ex_args_no_value) [] (NObj 5) \<and>
   list_all (\<lambda>n. \<not> matches ex_state (attr_of ex_args_no_value) [] n)
     [NObj 4, NObj 0, NStr ''text'', NObj 1, NObj 2, NObj 3] \<and>
   getCmpByAttr ex_args_no_value ex_state =
     getCmpByAttr (ex_args_no_value\<lparr>value := Some []\<rparr>) ex_state \<and>
   (\<exists>r t ps s'. NObj 5 = NObj r \<and> heap_at ex_state r = Some (OElement t ps) \<and>
      ps (attr_of ex_args_no_value) = Some (VStr []) \<and>
      getCmpByAttr ex_args_no_value ex_state = Inr (NObj (length (heap ex_state)), s') \<and>
      heap_at s' (length (heap ex_state)) =
        Some (OElement t (ps ++ props_of ex_args_no_value)))"
proof -
  have h1: "value ex_args_no_value = None"
    by (simp add: ex_defs)
  have h2: "\<not> memo_hit ex_args_no_value ex_state"
    by (simp add: ex_defs)
  have h3: "toArray (children ex_args_no_value) =
              [NObj 4, NObj 0, NStr ''text'', NObj 1, NObj 2, NObj 3] @ NObj 5 # [NNum 7]"
    by (simp add: ex_defs)
  have h4: "matches ex_state (attr_of ex_args_no_value) [] (NObj 5)"
    by (simp add: ex_defs)
  have h5: "\<forall>n\<in>set [NObj 4, NObj 0, NStr ''text'', NObj 1, NObj 2, NObj 3].
              \<not> matches ex_state (attr_of ex_args_no_value) [] n"
    by (simp add: ex_defs)
  note c = omitted_value_is_empty_string [OF h1 h2 h3 h4 h5]
  from h5 have h5': "list_all (\<lambda>n. \<not> matches ex_state (attr_of ex_args_no_value) [] n)
      [NObj 4, NObj 0, NStr ''text'', NObj 1, NObj 2, NObj 3]"
    by (simp only: list_all_iff)
  from h1 h2 h3 h4 h5' c show ?thesis by blast
qed

section \<open>C6: logging, the debug flag and the memo cell\<close>




section \<open>C7: the function never raises\<close>

text \<open>
  C7. For every argument record and every state the call returns a node and a state, no
  error. The callback of \<^verbatim>\<open>find\<close> returns a boolean on every node; on a node that is
  no valid element (a string, a number, a portal) reading \<^verbatim>\<open>cmp.props[attr]\<close> would
  throw, but the check in front of it answers false first and the node is skipped.
\<close>

theorem never_raises:
  "(\<exists>res s'. getCmpByAttr p s = Inr (res, s')) \<and>
   (\<exists>b. is_match s atr val n = Inr b) \<and>
   (\<not> isValidElement s n \<longrightarrow>
      index_props s n atr = Inl TypeError \<and> is_match s atr val n = Inr False)"
proof (intro conjI impI)
  show "\<exists>res s'. getCmpByAttr p s = Inr (res, s')" by (rule getCmpByAttr_total)
next
  show "\<exists>b. is_match s atr val n = Inr b" by (simp add: is_match_matches)
next
  assume "\<not> isValidElement s n"
  then show "index_props s n atr = Inl TypeError"
    by (auto simp: isValidElement_def index_props_def split: node.splits option.splits obj.splits)
next
  assume "\<not> isValidElement s n"
  then show "is_match s atr val n = Inr False" by (simp add: is_match_def)
qed

text \<open>The portal of the example: reading its properties throws, the callback does not.\<close>

theorem never_raises_witness:
  "\<not> isValidElement ex_state (NObj 4) \<and>
   index_props ex_state (NObj 4) ''data-slot'' = Inl TypeError \<and>
   is_match ex_state ''data-slot'' ''body'' (NObj 4) = Inr False \<and>
   (\<exists>res s'. getCmpByAttr ex_args ex_state = Inr (res, s'))"
proof -
  have h: "\<not> isValidElement ex_state (NObj 4)"
    by (simp add: isValidElement_def ex_defs)
  note c = never_raises [of ex_args ex_state "''data-slot''" "''body''" "NObj 4"]
  from h c show ?thesis by blast
qed

section \<open>C8: nothing that exists is modified\<close>



section \<open>C9: calling again gives the same result\<close>

text \<open>
  C9. Let a call compute its result in a state where every object the children refer
  to exists. Then calling again with the same arguments returns a node with the same
  content; so does a call that is forced to recompute because the memo cell was dropped;
  and when the caller passed a \<^verbatim>\<open>props\<close> object, the second call returns the very same
  node and leaves the state as it is. The stored result and the recomputed one agree, so
  the memo cell only saves work.
\<close>

theorem recomputation_gives_same_result:
  assumes "\<not> memo_hit p s" and "refs_ok s (children p)"
  shows "\<exists>res s' res2 s2 res3 s3.
           getCmpByAttr p s = Inr (res, s') \<and>
           getCmpByAttr p s' = Inr (res2, s2) \<and>
           getCmpByAttr p (s'\<lparr>memo := None\<rparr>) = Inr (res3, s3) \<and>
           node_content s2 res2 = node_content s' res \<and>
           node_content s3 res3 = node_content s' res \<and>
           (props p \<noteq> None \<longrightarrow> res2 = res \<and> s2 = s')"
proof -
  from getCmpByAttr_total obtain res s' where g: "getCmpByAttr p s = Inr (res, s')" by blast
  from assms(1) g have ms: "memo s' = Some (deps_of p, res)" by (rule memo_after_miss)
  have h3: "heap (s'\<lparr>memo := None\<rparr>) = heap s'" by simp
  have m3: "\<not> memo_hit p (s'\<lparr>memo := None\<rparr>)" by (simp add: memo_hit_def)
  from recompute [OF assms g h3 m3] obtain res3 s3 where
    g3: "getCmpByAttr p (s'\<lparr>memo := None\<rparr>) = Inr (res3, s3)"
    and c3: "node_content s3 res3 = node_content s' res" by blast
  have "\<exists>res2 s2. getCmpByAttr p s' = Inr (res2, s2) \<and>
          node_content s2 res2 = node_content s' res \<and>
          (props p \<noteq> None \<longrightarrow> res2 = res \<and> s2 = s')"
  proof (cases "memo_hit p s'")
    case True
    with ms have "getCmpByAttr p s' = Inr (res, s')"
      by (simp add: memo_hit_def getCmpByAttr_hit)
    then show ?thesis by simp
  next
    case False
    with ms have n: "props p = None"
      by (auto simp: memo_hit_def deps_of_def props_id_def
          split: option.splits record_obj.splits)
    have "heap s' = heap s'" by simp
    from recompute [OF assms g this False] n show ?thesis by simp
  qed
  then obtain res2 s2 where
    "getCmpByAttr p s' = Inr (res2, s2)"
    "node_content s2 res2 = node_content s' res"
    "props p \<noteq> None \<longrightarrow> res2 = res \<and> s2 = s'" by blast
  with g g3 c3 show ?thesis by blast
qed

theorem recomputation_gives_same_result_witness:
  "\<not> memo_hit ex_args ex_state \<and> refs_ok ex_state (children ex_args) \<and>
   (\<exists>res s' res2 s2 res3 s3.
      getCmpByAttr ex_args ex_state = Inr (res, s') \<and>
      getCmpByAttr ex_args s' = Inr (res2, s2) \<and>
      getCmpByAttr ex_args (s'\<lparr>memo := None\<rparr>) = Inr (res3, s3) \<and>
      node_content s2 res2 = node_content s' res \<and>
      node_content s3 res3 = node_content s' res \<and>
      (props ex_args \<noteq> None \<longrightarrow> res2 = res \<and> s2 = s'))"
proof -
  have h1: "\<not> memo_hit ex_args ex_state" by (simp add: ex_defs)
  have h2: "refs_ok ex_state (children ex_args)" by (simp add: ex_defs)
  note c = recomputation_gives_same_result [OF h1 h2]
  from h1 h2 c show ?thesis by blast
qed

section \<open>C10: extra properties may replace the slot attribute\<close>

text \<open>
  C10. Whenever the computation runs and \<^verbatim>\<open>find\<close> returns a match, the property
  \<open>attr\<close> of the returned clone is the value the extra properties give for \<open>attr\<close> when
  they name it, and the matched string \<open>value\<close> when they do not.
\<close>

theorem extra_props_override_slot_attribute:
  assumes "\<not> memo_hit p s"
      and "array_find (is_match s (attr_of p) (value_of p)) (toArray (children p)) = Inr m"
      and "truthy m"
  shows "\<exists>r' t ps' s'. getCmpByAttr p s = Inr (NObj r', s') \<and>
           heap_at s' r' = Some (OElement t ps') \<and>
           ps' (attr_of p) =
             (case props_of p (attr_of p) of
                Some v \<Rightarrow> Some v
              | None \<Rightarrow> Some (VStr (value_of p)))"
proof -
  from assms(2,3) have f:
    "List.find (matches s (attr_of p) (value_of p)) (toArray (children p)) = Some m"
    by (rule find_truthy)
  then obtain r t ps where m: "m = NObj r" and h: "heap_at s r = Some (OElement t ps)"
    and a: "ps (attr_of p) = Some (VStr (value_of p))"
    by (blast dest: find_matches_elem)
  from f m have
    "List.find (matches s (attr_of p) (value_of p)) (toArray (children p)) = Some (NObj r)"
    by simp
  from getCmpByAttr_found [OF assms(1) this h] a show ?thesis
    by (simp add: map_add_def split: option.splits)
qed

text \<open>
  In the example the extra properties \<^verbatim>\<open>{"data-slot": "moved"}\<close> put \<^verbatim>\<open>"moved"\<close> in
  the place of \<^verbatim>\<open>"body"\<close> on the clone.
\<close>

theorem extra_props_override_slot_attribute_witness:
  "\<not> memo_hit ex_args_override ex_state \<and>
   array_find (is_match ex_state (attr_of ex_args_override) (value_of ex_args_override))
     (toArray (children ex_args_override)) = Inr (NObj 1) \<and>
   truthy (NObj 1) \<and>
   props_of ex_args_override (attr_of ex_args_override) = Some (VStr ''moved'') \<and>
   (\<exists>r' t ps' s'. getCmpByAttr ex_args_override ex_state = Inr (NObj r', s') \<and>
      heap_at s' r' = Some (OElement t ps') \<and>
      ps' (attr_of ex_args_override) =
        (case props_of ex_args_override (attr_of ex_args_override) of
           Some v \<Rightarrow> Some v
         | None \<Rightarrow> Some (VStr (value_of ex_args_override))))"
proof -
  have h1: "\<not> memo_hit ex_args_override ex_state"
    by (simp add: ex_defs)
  have h2: "array_find
              (is_match ex_state (attr_of ex_args_override) (value_of ex_args_override))
              (toArray (children ex_args_override)) = Inr (NObj 1)"
    using ex_array_find
    by (simp add: ex_args_override_def ex_args_def attr_of_def value_of_def)
  have h3: "truthy (NObj 1)" by simp
  have h4: "props_of ex_args_override (attr_of ex_args_override) = Some (VStr ''moved'')"
    by (simp add: ex_defs)
  note c = extra_props_override_slot_attribute [OF h1 h2 h3]
  from h1 h2 h3 h4 c show ?thesis by blast
qed

end
